theory Spec2Isabelle
  imports Main
begin

section \<open>Data model of App.js\<close>

text \<open>
  The component \<open>App\<close> keeps two pieces of React state, \<open>isMicOn\<close> and \<open>sounds\<close>.
  Everything else it touches lives outside the component: the native microphone stream
  (\<open>LiveAudioStream\<close>), the \<open>Audio.Sound\<close> objects made by \<open>createAsync\<close>, the
  permission hook, the document picker, alerts and the console.  The embedding passes
  one state record through every handler.  It holds the React state, the part of the
  outside world the handlers act on, the handlers that are suspended at an \<open>await\<close>,
  and the trace of calls the handlers make.
\<close>

datatype error = TypeError string | NativeError string

datatype jsval = JUndefined | JBool bool

text \<open>
  An \<open>Audio.Sound\<close> object, reduced to what \<open>stopAsync\<close>, \<open>setPositionAsync\<close>,
  \<open>playAsync\<close> and \<open>unloadAsync\<close> read and write.  Objects live in a store indexed by
  a handle, so that two references to one object are two copies of one handle.
\<close>

record player =
  loaded :: bool
  playing :: bool
  position :: nat
  source :: "string option"

text \<open>The object literal \<open>newSound\<close> (lines 114-119); \<open>None\<close> is \<open>undefined\<close>.\<close>

record sound_item =
  item_id :: string
  item_name :: "string option"
  item_uri :: "string option"
  soundObj :: nat

text \<open>A picked file, and the result object of \<open>DocumentPicker.getDocumentAsync\<close>.\<close>

record file_obj =
  file_uri :: "string option"
  file_name :: "string option"

record picker_result =
  rtype :: "string option"
  canceled :: "bool option"
  assets :: "file_obj list option"
  ruri :: "string option"
  rname :: "string option"

text \<open>
  The two updaters the component passes to \<open>setSounds\<close>:
  \<open>prev => [...prev, newSound]\<close> (line 121) and
  \<open>prev => prev.filter(s => s.id !== id)\<close> (line 143).
\<close>

datatype sounds_update = Append sound_item | Without string

fun apply_update :: "sounds_update \<Rightarrow> sound_item list \<Rightarrow> sound_item list" where
  "apply_update (Append newSound) prev = prev @ [newSound]"
| "apply_update (Without i) prev = filter (\<lambda>x. item_id x \<noteq> i) prev"

datatype call =
    RequestPermission
  | SetAudioModeAsync
  | LiveAudioStream_init
  | LiveAudioStream_on
  | LiveAudioStream_start
  | LiveAudioStream_stop
  | Alert_alert string string
  | Console_log string error
  | GetDocumentAsync
  | CreateAsync "string option"
  | StopAsync nat
  | SetPositionAsync nat nat
  | PlayAsync nat
  | UnloadAsync nat
  | SetIsMicOn bool
  | SetSounds sounds_update

text \<open>
  A handler suspended at an \<open>await\<close>, with what its continuation still needs: the
  picked file for \<open>addSound\<close>, the item for \<open>playSound\<close>, the id and the object being
  unloaded for \<open>removeSound\<close>.
\<close>

datatype task =
    MountPermission
  | MountAudioMode
  | TogglePermission
  | AddPicker
  | AddCreate file_obj
  | PlayStop sound_item
  | PlaySeek sound_item
  | PlayStart sound_item
  | RemoveUnload string nat

text \<open>
  \<open>streaming\<close> is the state of the native stream.  \<open>mounted\<close> is false once the
  cleanup of the effect has run.  \<open>pending\<close> lists the suspended handlers.
\<close>

record app_state =
  isMicOn :: bool
  sounds :: "sound_item list"
  streaming :: bool
  players :: "nat \<rightharpoonup> player"
  nextObj :: nat
  pending :: "task list"
  trace :: "call list"
  mounted :: bool

definition init_state :: app_state where
  "init_state = \<lparr>isMicOn = False, sounds = [], streaming = False, players = Map.empty,
     nextObj = 0, pending = [], trace = [], mounted = True\<rparr>"

section \<open>The calls the handlers make\<close>

definition called :: "call \<Rightarrow> app_state \<Rightarrow> app_state" where
  "called c s = s\<lparr>trace := trace s @ [c]\<rparr>"

text \<open>
  The two state setters.  React ignores a state update of a component that is no longer
  mounted: nothing changes, and the trace records only the updates that are applied.
\<close>

definition setIsMicOn :: "bool \<Rightarrow> app_state \<Rightarrow> app_state" where
  "setIsMicOn b s =
     (if mounted s then (called (SetIsMicOn b) s)\<lparr>isMicOn := b\<rparr> else s)"

definition setSounds :: "sounds_update \<Rightarrow> app_state \<Rightarrow> app_state" where
  "setSounds u s =
     (if mounted s then (called (SetSounds u) s)\<lparr>sounds := apply_update u (sounds s)\<rparr> else s)"

definition LiveAudioStream_start_call :: "app_state \<Rightarrow> app_state" where
  "LiveAudioStream_start_call s = (called LiveAudioStream_start s)\<lparr>streaming := True\<rparr>"

definition LiveAudioStream_stop_call :: "app_state \<Rightarrow> app_state" where
  "LiveAudioStream_stop_call s = (called LiveAudioStream_stop s)\<lparr>streaming := False\<rparr>"

text \<open>
  \<open>requestPermission\<close> resolves to the response the platform gives (its \<open>status\<close>), or
  rejects.  The response is an input of the model.
\<close>

definition requestPermission :: "error + string \<Rightarrow> app_state \<Rightarrow> (error + string) \<times> app_state" where
  "requestPermission resp s = (resp, called RequestPermission s)"

definition not_loaded :: error where
  "not_loaded = NativeError ''Cannot complete operation because sound is not loaded.''"

text \<open>
  The playback methods of a sound object: each rejects on an object that is not loaded;
  \<open>stopAsync\<close> pauses and rewinds, \<open>setPositionAsync\<close> moves the cursor, \<open>playAsync\<close>
  resumes from the cursor.
\<close>

definition stopAsync :: "nat \<Rightarrow> app_state \<Rightarrow> error option \<times> app_state" where
  "stopAsync h s =
     (let s1 = called (StopAsync h) s in
      case players s1 h of
        None \<Rightarrow> (Some not_loaded, s1)
      | Some p \<Rightarrow>
          if loaded p
          then (None, s1\<lparr>players := (players s1)(h \<mapsto> p\<lparr>playing := False, position := 0\<rparr>)\<rparr>)
          else (Some not_loaded, s1))"

definition setPositionAsync :: "nat \<Rightarrow> nat \<Rightarrow> app_state \<Rightarrow> error option \<times> app_state" where
  "setPositionAsync h ms s =
     (let s1 = called (SetPositionAsync h ms) s in
      case players s1 h of
        None \<Rightarrow> (Some not_loaded, s1)
      | Some p \<Rightarrow>
          if loaded p
          then (None, s1\<lparr>players := (players s1)(h \<mapsto> p\<lparr>position := ms\<rparr>)\<rparr>)
          else (Some not_loaded, s1))"

definition playAsync :: "nat \<Rightarrow> app_state \<Rightarrow> error option \<times> app_state" where
  "playAsync h s =
     (let s1 = called (PlayAsync h) s in
      case players s1 h of
        None \<Rightarrow> (Some not_loaded, s1)
      | Some p \<Rightarrow>
          if loaded p
          then (None, s1\<lparr>players := (players s1)(h \<mapsto> p\<lparr>playing := True\<rparr>)\<rparr>)
          else (Some not_loaded, s1))"

text \<open>
  \<open>unloadAsync\<close> releases the decoded audio of the object, or rejects; which of the
  two is an input of the model (\<open>Some err\<close> is a rejection).  A rejected call is taken
  to leave the object as it was.
\<close>

definition unloadAsync :: "nat \<Rightarrow> error option \<Rightarrow> app_state \<Rightarrow> error option \<times> app_state" where
  "unloadAsync h unloaded s =
     (let s1 = called (UnloadAsync h) s in
      case unloaded of
        Some err \<Rightarrow> (Some err, s1)
      | None \<Rightarrow>
          (case players s1 h of
             None \<Rightarrow> (None, s1)
           | Some p \<Rightarrow>
               (None, s1\<lparr>players := (players s1)(h \<mapsto> p\<lparr>loaded := False, playing := False\<rparr>)\<rparr>)))"

text \<open>
  \<open>Audio.Sound.createAsync({uri}, {shouldPlay: false})\<close>: whether the file decodes is
  an input of the model (\<open>Some err\<close> is a rejection).  On success a new loaded, paused
  object is allocated at cursor 0.
\<close>

definition createAsync :: "string option \<Rightarrow> error option \<Rightarrow> app_state \<Rightarrow> (error + nat) \<times> app_state" where
  "createAsync u created s =
     (let s1 = called (CreateAsync u) s in
      case created of
        Some err \<Rightarrow> (Inl err, s1)
      | None \<Rightarrow>
          (Inr (nextObj s1),
           s1\<lparr>players := (players s1)(nextObj s1 \<mapsto>
                  \<lparr>loaded = True, playing = False, position = 0, source = u\<rparr>),
               nextObj := Suc (nextObj s1)\<rparr>))"

subsection \<open>\<open>Date.now().toString()\<close>\<close>

text \<open>
  The clock reading is a count of milliseconds, a natural number; its string is the
  decimal numeral.  \<open>digit_char\<close> is only applied to numbers below 10.
\<close>

definition digit_char :: "nat \<Rightarrow> char" where
  "digit_char d = ''0123456789'' ! d"

fun toString :: "nat \<Rightarrow> string" where
  "toString n = (if n < 10 then [digit_char n] else toString (n div 10) @ [digit_char (n mod 10)])"

declare toString.simps [simp del]

section \<open>The handlers, run through without interruption\<close>

text \<open>
  Each function of this section is one handler of the component run from its first
  statement to its last, every \<open>await\<close> answered before anything else happens.  The
  answers are arguments.
\<close>

text \<open>The body of the \<open>'data'\<close> listener (lines 66-73) holds comments only.\<close>

definition on_data :: "string \<Rightarrow> app_state \<Rightarrow> app_state" where
  "on_data data s = s"

text \<open>The cleanup of the effect (lines 77-79).\<close>

definition cleanup :: "app_state \<Rightarrow> app_state" where
  "cleanup s = (LiveAudioStream_stop_call s)\<lparr>mounted := False\<rparr>"

subsection \<open>\<open>toggleMic\<close> (lines 82-97)\<close>

text \<open>
  \<open>permissionStatus\<close> is \<open>permissionResponse?.status\<close> as the render that built the
  handler saw it; \<open>resp\<close> is what \<open>requestPermission()\<close> resolves to if it is called.
\<close>

definition toggleMic :: "string option \<Rightarrow> error + string \<Rightarrow> app_state \<Rightarrow> app_state" where
  "toggleMic permissionStatus resp s =
     (if isMicOn s then setIsMicOn False (LiveAudioStream_stop_call s)
      else if permissionStatus \<noteq> Some ''granted'' then
        (case requestPermission resp s of
           (Inl err, s1) \<Rightarrow> s1
         | (Inr status, s1) \<Rightarrow>
             if status \<noteq> ''granted''
             then called (Alert_alert ''Permission Required'' ''Microphone permission is needed.'') s1
             else setIsMicOn True (LiveAudioStream_start_call s1))
      else setIsMicOn True (LiveAudioStream_start_call s))"

subsection \<open>\<open>addSound\<close> (lines 99-126)\<close>

text \<open>\<open>result.assets ? result.assets[0] : result\<close>; an empty array is truthy and its
  element 0 is \<open>undefined\<close>.\<close>

definition picked_file :: "picker_result \<Rightarrow> file_obj option" where
  "picked_file result =
     (case assets result of
        None \<Rightarrow> Some \<lparr>file_uri = ruri result, file_name = rname result\<rparr>
      | Some [] \<Rightarrow> None
      | Some (f # _) \<Rightarrow> Some f)"

definition newSound :: "nat \<Rightarrow> file_obj \<Rightarrow> nat \<Rightarrow> sound_item" where
  "newSound now f sound =
     \<lparr>item_id = toString now, item_name = file_name f, item_uri = file_uri f, soundObj = sound\<rparr>"

text \<open>
  The \<open>try\<close> block up to the point where \<open>newSound\<close> is built.  In the guard of
  line 106, \<open>!result.canceled\<close> is false only when the field is \<open>true\<close>; a result
  without the field passes the guard.  The value is the error
  thrown, or the item handed to \<open>setSounds\<close> (\<open>None\<close> when the guard of line 106 is
  false); the state is the state at that point.  \<open>picked\<close> is what the picker resolves
  to, \<open>created\<close> the outcome of decoding, \<open>now\<close> the reading of \<open>Date.now()\<close>.
\<close>

definition addSound_try ::
  "error + picker_result \<Rightarrow> error option \<Rightarrow> nat \<Rightarrow> app_state \<Rightarrow> (error + sound_item option) \<times> app_state" where
  "addSound_try picked created now s =
     (let s1 = called GetDocumentAsync s in
      case picked of
        Inl err \<Rightarrow> (Inl err, s1)
      | Inr result \<Rightarrow>
          if rtype result = Some ''success'' \<or> \<not> (canceled result = Some True)
          then (case picked_file result of
                  None \<Rightarrow> (Inl (TypeError ''Cannot read property uri of undefined''), s1)
                | Some f \<Rightarrow>
                    (case createAsync (file_uri f) created s1 of
                       (Inl err, s2) \<Rightarrow> (Inl err, s2)
                     | (Inr sound, s2) \<Rightarrow> (Inr (Some (newSound now f sound)), s2)))
          else (Inr None, s1))"

text \<open>The append of line 121 and the \<open>catch\<close> of lines 123-125.\<close>

definition addSound :: "error + picker_result \<Rightarrow> error option \<Rightarrow> nat \<Rightarrow> app_state \<Rightarrow> app_state" where
  "addSound picked created now s =
     (case addSound_try picked created now s of
        (Inl err, s1) \<Rightarrow> called (Console_log ''Error picking file:'' err) s1
      | (Inr None, s1) \<Rightarrow> s1
      | (Inr (Some item), s1) \<Rightarrow> setSounds (Append item) s1)"

subsection \<open>\<open>playSound\<close> (lines 128-136)\<close>

definition playSound :: "sound_item \<Rightarrow> app_state \<Rightarrow> app_state" where
  "playSound soundItem s =
     (case stopAsync (soundObj soundItem) s of
        (Some err, s1) \<Rightarrow> called (Console_log ''Playback failed'' err) s1
      | (None, s1) \<Rightarrow>
          (case setPositionAsync (soundObj soundItem) 0 s1 of
             (Some err, s2) \<Rightarrow> called (Console_log ''Playback failed'' err) s2
           | (None, s2) \<Rightarrow>
               (case playAsync (soundObj soundItem) s2 of
                  (Some err, s3) \<Rightarrow> called (Console_log ''Playback failed'' err) s3
                | (None, s3) \<Rightarrow> s3)))"

subsection \<open>\<open>removeSound\<close> (lines 138-144)\<close>

text \<open>
  The \<open>await\<close> of line 141 is in no \<open>try\<close>: when the unload rejects, line 143 is not
  reached and the promise of \<open>removeSound\<close> rejects with the same error (\<open>Inl\<close>).
  Otherwise the function runs to its end; it has no \<open>return\<close> statement, so its promise
  resolves to \<open>undefined\<close>.  \<open>unloaded\<close> is the outcome of the unload if it is called.
\<close>

definition removeSound :: "string \<Rightarrow> error option \<Rightarrow> app_state \<Rightarrow> (error + jsval) \<times> app_state" where
  "removeSound i unloaded s =
     (let soundToFree = find (\<lambda>x. item_id x = i) (sounds s);
          (thrown, s1) = (case soundToFree of
                            None \<Rightarrow> (None, s)
                          | Some x \<Rightarrow> unloadAsync (soundObj x) unloaded s)
      in case thrown of
           Some err \<Rightarrow> (Inl err, s1)
         | None \<Rightarrow> (Inr JUndefined, setSounds (Without i) s1))"

subsection \<open>What is rendered (lines 146-218)\<close>

definition statusText :: "app_state \<Rightarrow> string" where
  "statusText s = (if isMicOn s then ''BROADCASTING'' else ''READY'')"

definition card :: "sound_item \<Rightarrow> string \<times> string option" where
  "card item = (item_id item, item_name item)"

definition cards :: "app_state \<Rightarrow> (string \<times> string option) list" where
  "cards s = map card (sounds s)"

section \<open>The handlers, suspended and resumed\<close>

text \<open>
  A handler is an \<open>async\<close> function: it runs up to an \<open>await\<close>, hands the call to the
  platform and is suspended; other handlers may run; when the promise settles, the rest
  runs up to the next \<open>await\<close>.  Each piece between two \<open>await\<close>s runs without
  interruption.  The pieces below are cut from the handlers at their \<open>await\<close>s.
\<close>

definition suspend :: "task \<Rightarrow> app_state \<Rightarrow> app_state" where
  "suspend t s = s\<lparr>pending := pending s @ [t]\<rparr>"

subsection \<open>What a settled call has done\<close>

definition stopAsync_settled :: "nat \<Rightarrow> app_state \<Rightarrow> error option \<times> app_state" where
  "stopAsync_settled h s =
     (case players s h of
        None \<Rightarrow> (Some not_loaded, s)
      | Some p \<Rightarrow>
          if loaded p
          then (None, s\<lparr>players := (players s)(h \<mapsto> p\<lparr>playing := False, position := 0\<rparr>)\<rparr>)
          else (Some not_loaded, s))"

definition setPositionAsync_settled :: "nat \<Rightarrow> nat \<Rightarrow> app_state \<Rightarrow> error option \<times> app_state" where
  "setPositionAsync_settled h ms s =
     (case players s h of
        None \<Rightarrow> (Some not_loaded, s)
      | Some p \<Rightarrow>
          if loaded p
          then (None, s\<lparr>players := (players s)(h \<mapsto> p\<lparr>position := ms\<rparr>)\<rparr>)
          else (Some not_loaded, s))"

definition playAsync_settled :: "nat \<Rightarrow> app_state \<Rightarrow> error option \<times> app_state" where
  "playAsync_settled h s =
     (case players s h of
        None \<Rightarrow> (Some not_loaded, s)
      | Some p \<Rightarrow>
          if loaded p
          then (None, s\<lparr>players := (players s)(h \<mapsto> p\<lparr>playing := True\<rparr>)\<rparr>)
          else (Some not_loaded, s))"

definition unloadAsync_settled :: "nat \<Rightarrow> error option \<Rightarrow> app_state \<Rightarrow> error option \<times> app_state" where
  "unloadAsync_settled h unloaded s =
     (case unloaded of
        Some err \<Rightarrow> (Some err, s)
      | None \<Rightarrow>
          (case players s h of
             None \<Rightarrow> (None, s)
           | Some p \<Rightarrow>
               (None, s\<lparr>players := (players s)(h \<mapsto> p\<lparr>loaded := False, playing := False\<rparr>)\<rparr>)))"

definition createAsync_settled :: "string option \<Rightarrow> error option \<Rightarrow> app_state \<Rightarrow> (error + nat) \<times> app_state" where
  "createAsync_settled u created s =
     (case created of
        Some err \<Rightarrow> (Inl err, s)
      | None \<Rightarrow>
          (Inr (nextObj s),
           s\<lparr>players := (players s)(nextObj s \<mapsto>
                  \<lparr>loaded = True, playing = False, position = 0, source = u\<rparr>),
             nextObj := Suc (nextObj s)\<rparr>))"

subsection \<open>The mount effect (lines 28-75)\<close>

text \<open>
  The effect asks for the permission when it is not granted, sets the audio mode,
  configures the stream and registers the listener.  A rejected \<open>await\<close> ends the
  effect there.  It never starts the stream.
\<close>

definition mount_effect_audio :: "app_state \<Rightarrow> app_state" where
  "mount_effect_audio s = suspend MountAudioMode (called SetAudioModeAsync s)"

definition mount_effect_start :: "string option \<Rightarrow> app_state \<Rightarrow> app_state" where
  "mount_effect_start permissionStatus s =
     (if permissionStatus \<noteq> Some ''granted''
      then suspend MountPermission (called RequestPermission s)
      else mount_effect_audio s)"

definition mount_effect_permitted :: "error + string \<Rightarrow> app_state \<Rightarrow> app_state" where
  "mount_effect_permitted resp s = (case resp of Inl err \<Rightarrow> s | Inr status \<Rightarrow> mount_effect_audio s)"

definition mount_effect_configured :: "error option \<Rightarrow> app_state \<Rightarrow> app_state" where
  "mount_effect_configured audioMode s =
     (case audioMode of
        Some err \<Rightarrow> s
      | None \<Rightarrow> called LiveAudioStream_on (called LiveAudioStream_init s))"

subsection \<open>\<open>toggleMic\<close> in two pieces\<close>

definition toggleMic_start :: "string option \<Rightarrow> app_state \<Rightarrow> app_state" where
  "toggleMic_start permissionStatus s =
     (if isMicOn s then setIsMicOn False (LiveAudioStream_stop_call s)
      else if permissionStatus \<noteq> Some ''granted''
      then suspend TogglePermission (called RequestPermission s)
      else setIsMicOn True (LiveAudioStream_start_call s))"

definition toggleMic_answered :: "error + string \<Rightarrow> app_state \<Rightarrow> app_state" where
  "toggleMic_answered resp s =
     (case resp of
        Inl err \<Rightarrow> s
      | Inr status \<Rightarrow>
          if status \<noteq> ''granted''
          then called (Alert_alert ''Permission Required'' ''Microphone permission is needed.'') s
          else setIsMicOn True (LiveAudioStream_start_call s))"

subsection \<open>\<open>addSound\<close> in three pieces\<close>

definition addSound_start :: "app_state \<Rightarrow> app_state" where
  "addSound_start s = suspend AddPicker (called GetDocumentAsync s)"

definition addSound_picked :: "error + picker_result \<Rightarrow> app_state \<Rightarrow> app_state" where
  "addSound_picked picked s =
     (case picked of
        Inl err \<Rightarrow> called (Console_log ''Error picking file:'' err) s
      | Inr result \<Rightarrow>
          if rtype result = Some ''success'' \<or> \<not> (canceled result = Some True)
          then (case picked_file result of
                  None \<Rightarrow>
                    called (Console_log ''Error picking file:''
                              (TypeError ''Cannot read property uri of undefined'')) s
                | Some f \<Rightarrow> suspend (AddCreate f) (called (CreateAsync (file_uri f)) s))
          else s)"

text \<open>\<open>Date.now()\<close> is read after the decoding has settled, in the piece that appends.\<close>

definition addSound_created :: "file_obj \<Rightarrow> error option \<Rightarrow> nat \<Rightarrow> app_state \<Rightarrow> app_state" where
  "addSound_created f created now s =
     (case createAsync_settled (file_uri f) created s of
        (Inl err, s1) \<Rightarrow> called (Console_log ''Error picking file:'' err) s1
      | (Inr sound, s1) \<Rightarrow> setSounds (Append (newSound now f sound)) s1)"

subsection \<open>\<open>playSound\<close> in four pieces\<close>

definition playSound_start :: "sound_item \<Rightarrow> app_state \<Rightarrow> app_state" where
  "playSound_start soundItem s =
     suspend (PlayStop soundItem) (called (StopAsync (soundObj soundItem)) s)"

definition playSound_stopped :: "sound_item \<Rightarrow> app_state \<Rightarrow> app_state" where
  "playSound_stopped soundItem s =
     (case stopAsync_settled (soundObj soundItem) s of
        (Some err, s1) \<Rightarrow> called (Console_log ''Playback failed'' err) s1
      | (None, s1) \<Rightarrow>
          suspend (PlaySeek soundItem) (called (SetPositionAsync (soundObj soundItem) 0) s1))"

definition playSound_rewound :: "sound_item \<Rightarrow> app_state \<Rightarrow> app_state" where
  "playSound_rewound soundItem s =
     (case setPositionAsync_settled (soundObj soundItem) 0 s of
        (Some err, s1) \<Rightarrow> called (Console_log ''Playback failed'' err) s1
      | (None, s1) \<Rightarrow>
          suspend (PlayStart soundItem) (called (PlayAsync (soundObj soundItem)) s1))"

definition playSound_played :: "sound_item \<Rightarrow> app_state \<Rightarrow> app_state" where
  "playSound_played soundItem s =
     (case playAsync_settled (soundObj soundItem) s of
        (Some err, s1) \<Rightarrow> called (Console_log ''Playback failed'' err) s1
      | (None, s1) \<Rightarrow> s1)"

subsection \<open>\<open>removeSound\<close> in two pieces\<close>

definition removeSound_start :: "string \<Rightarrow> app_state \<Rightarrow> app_state" where
  "removeSound_start i s =
     (case find (\<lambda>x. item_id x = i) (sounds s) of
        None \<Rightarrow> setSounds (Without i) s
      | Some x \<Rightarrow> suspend (RemoveUnload i (soundObj x)) (called (UnloadAsync (soundObj x)) s))"

definition removeSound_unloaded :: "string \<Rightarrow> nat \<Rightarrow> error option \<Rightarrow> app_state \<Rightarrow> app_state" where
  "removeSound_unloaded i h unloaded s =
     (case unloadAsync_settled h unloaded s of
        (Some err, s1) \<Rightarrow> s1
      | (None, s1) \<Rightarrow> setSounds (Without i) s1)"

section \<open>Runs of the application\<close>

text \<open>
  What the platform answers when a promise settles: the permission response, the
  outcome of setting the audio mode, the picker result, the outcome of decoding together
  with the clock reading taken right after it, the completion of a playback call, the
  outcome of an unload.
\<close>

datatype answer =
    Permission "error + string"
  | AudioMode "error option"
  | Picked "error + picker_result"
  | Created "error option" nat
  | Performed
  | Unloaded "error option"

text \<open>The rest of a suspended handler; \<open>None\<close> when the answer is not of the awaited kind.\<close>

fun resume :: "task \<Rightarrow> answer \<Rightarrow> app_state \<Rightarrow> app_state option" where
  "resume MountPermission (Permission resp) s = Some (mount_effect_permitted resp s)"
| "resume MountAudioMode (AudioMode audioMode) s = Some (mount_effect_configured audioMode s)"
| "resume TogglePermission (Permission resp) s = Some (toggleMic_answered resp s)"
| "resume AddPicker (Picked picked) s = Some (addSound_picked picked s)"
| "resume (AddCreate f) (Created created now) s = Some (addSound_created f created now s)"
| "resume (PlayStop x) Performed s = Some (playSound_stopped x s)"
| "resume (PlaySeek x) Performed s = Some (playSound_rewound x s)"
| "resume (PlayStart x) Performed s = Some (playSound_played x s)"
| "resume (RemoveUnload i h) (Unloaded unloaded) s = Some (removeSound_unloaded i h unloaded s)"
| "resume _ _ s = None"

text \<open>
  The promise of the \<open>k\<close>-th suspended handler settles: the handler leaves the list of
  suspended handlers and its next piece runs.  This happens whether or not the
  component is still mounted.
\<close>

definition settle :: "nat \<Rightarrow> answer \<Rightarrow> app_state \<Rightarrow> app_state" where
  "settle k a s =
     (if k < length (pending s)
      then (case resume (pending s ! k) a
                   (s\<lparr>pending := take k (pending s) @ drop (Suc k) (pending s)\<rparr>) of
              None \<Rightarrow> s
            | Some s' \<Rightarrow> s')
      else s)"

text \<open>
  An event is the effect running after the first render, a press on a button, a chunk
  from the microphone, the unmounting of the component, or a promise settling.  A press
  runs the first piece of its handler, which reads \<open>isMicOn\<close> and \<open>sounds\<close> as the
  render that built it saw them: this is the state at the press.  Buttons exist only
  while the component is mounted.
\<close>

datatype event =
    Mount "string option"
  | PressMic "string option"
  | PressAdd
  | PressPlay sound_item
  | PressRemove string
  | Data string
  | Unmount
  | Settle nat answer

fun press :: "event \<Rightarrow> app_state \<Rightarrow> app_state" where
  "press (Mount permissionStatus) s = mount_effect_start permissionStatus s"
| "press (PressMic permissionStatus) s = toggleMic_start permissionStatus s"
| "press PressAdd s = addSound_start s"
| "press (PressPlay soundItem) s = playSound_start soundItem s"
| "press (PressRemove i) s = removeSound_start i s"
| "press Unmount s = cleanup s"
| "press _ s = s"

fun step :: "event \<Rightarrow> app_state \<Rightarrow> app_state" where
  "step (Settle k a) s = settle k a s"
| "step (Data d) s = on_data d s"
| "step ev s = (if mounted s then press ev s else s)"

fun run :: "event list \<Rightarrow> app_state \<Rightarrow> app_state" where
  "run [] s = s"
| "run (ev # evs) s = run evs (step ev s)"

section \<open>Reading a trace and a state\<close>

text \<open>
  Whether, by the calls of a trace, the stream has been started and not stopped since.
\<close>

definition stream_after :: "bool \<Rightarrow> call \<Rightarrow> bool" where
  "stream_after b c =
     (if c = LiveAudioStream_start then True
      else if c = LiveAudioStream_stop then False
      else b)"

definition started_not_stopped :: "call list \<Rightarrow> bool" where
  "started_not_stopped cs = foldl stream_after False cs"

text \<open>
  The items a trace has appended to the list and not removed since, in the order of the
  appends: an appended item is dropped when a later call removes its id.
\<close>

definition removed_later :: "string \<Rightarrow> call list \<Rightarrow> bool" where
  "removed_later i cs = (SetSounds (Without i) \<in> set cs)"

fun survivors :: "call list \<Rightarrow> sound_item list" where
  "survivors [] = []"
| "survivors (SetSounds (Append x) # cs) =
     (if removed_later (item_id x) cs then survivors cs else x # survivors cs)"
| "survivors (c # cs) = survivors cs"


text \<open>
  The sound objects that are producing sound: loaded and playing.  Objects are
  allocated at the handles below \<open>nextObj\<close>.
\<close>

definition sounding :: "app_state \<Rightarrow> nat list" where
  "sounding s =
     filter (\<lambda>h. case players s h of None \<Rightarrow> False | Some p \<Rightarrow> loaded p \<and> playing p)
       [0..<nextObj s]"

text \<open>The clips triggered and the chunks captured in a sequence of events.\<close>

fun triggered :: "event list \<Rightarrow> sound_item list" where
  "triggered [] = []"
| "triggered (PressPlay x # evs) = x # triggered evs"
| "triggered (ev # evs) = triggered evs"

fun captured :: "event list \<Rightarrow> string list" where
  "captured [] = []"
| "captured (Data d # evs) = d # captured evs"
| "captured (ev # evs) = captured evs"

text \<open>The same events with every captured chunk replaced by another one.\<close>

fun recapture :: "string \<Rightarrow> event \<Rightarrow> event" where
  "recapture d' (Data d) = Data d'"
| "recapture d' ev = ev"

section \<open>Invariants of a run\<close>

text \<open>
  The native stream is on exactly when the trace says so, and while the component is
  mounted the flag agrees with it.
\<close>

definition stream_inv :: "app_state \<Rightarrow> bool" where
  "stream_inv s =
     (streaming s = started_not_stopped (trace s) \<and> (if mounted s then isMicOn s = streaming s else True))"


text \<open>
  No sound object is playing and no \<open>playSound\<close> is under way.
\<close>

fun play_task :: "task \<Rightarrow> bool" where
  "play_task (PlayStop x) = True"
| "play_task (PlaySeek x) = True"
| "play_task (PlayStart x) = True"
| "play_task t = False"

fun updates_list :: "call \<Rightarrow> bool" where
  "updates_list (SetSounds u) = True"
| "updates_list c = False"

definition quiet :: "app_state \<Rightarrow> bool" where
  "quiet s = ((\<forall>h p. players s h = Some p \<longrightarrow> \<not> playing p) \<and> (\<forall>t \<in> set (pending s). \<not> play_task t))"

text \<open>
  The readings of \<open>Date.now()\<close> delivered to the appending piece of \<open>addSound\<close>,
  and the three ways in which one event can change the list, given the readings it
  delivers: not at all, by dropping an id, or by appending an item named after a reading.
\<close>

fun clock_readings :: "event list \<Rightarrow> nat list" where
  "clock_readings [] = []"
| "clock_readings (Settle k (Created created now) # evs) = now # clock_readings evs"
| "clock_readings (ev # evs) = clock_readings evs"

definition list_move :: "nat list \<Rightarrow> sound_item list \<Rightarrow> sound_item list \<Rightarrow> bool" where
  "list_move ns xs ys =
     (ys = xs \<or> (\<exists>i. ys = filter (\<lambda>x. item_id x \<noteq> i) xs)
      \<or> (\<exists>item n. n \<in> set ns \<and> item_id item = toString n \<and> ys = xs @ [item]))"

section \<open>Sample inputs\<close>

text \<open>
  Two picked files, a cancelled pick, and a state in which the first file has been added
  and has been playing for five seconds.
\<close>

definition demo_file :: file_obj where
  "demo_file = \<lparr>file_uri = Some ''file:///cache/horn.mp3'', file_name = Some ''horn.mp3''\<rparr>"

definition demo_pick :: picker_result where
  "demo_pick = \<lparr>rtype = None, canceled = Some False, assets = Some [demo_file], ruri = None, rname = None\<rparr>"

definition demo_cancel :: picker_result where
  "demo_cancel = \<lparr>rtype = None, canceled = Some True, assets = None, ruri = None, rname = None\<rparr>"

definition demo_item :: sound_item where
  "demo_item = \<lparr>item_id = ''1700000000000'', item_name = Some ''horn.mp3'',
     item_uri = Some ''file:///cache/horn.mp3'', soundObj = 0\<rparr>"

definition demo_playing :: app_state where
  "demo_playing = init_state\<lparr>sounds := [demo_item],
     players := [0 \<mapsto> \<lparr>loaded = True, playing = True, position = 5000,
                          source = Some ''file:///cache/horn.mp3''\<rparr>],
     nextObj := 1\<rparr>"

definition demo_file2 :: file_obj where
  "demo_file2 = \<lparr>file_uri = Some ''file:///cache/siren.mp3'', file_name = Some ''siren.mp3''\<rparr>"

definition demo_pick2 :: picker_result where
  "demo_pick2 = \<lparr>rtype = None, canceled = Some False, assets = Some [demo_file2], ruri = None, rname = None\<rparr>"

section \<open>Pieces and whole handlers\<close>

lemmas call_defs = called_def setIsMicOn_def setSounds_def LiveAudioStream_start_call_def
  LiveAudioStream_stop_call_def requestPermission_def suspend_def

lemmas player_defs = stopAsync_def setPositionAsync_def playAsync_def unloadAsync_def createAsync_def

lemmas settled_defs = stopAsync_settled_def setPositionAsync_settled_def playAsync_settled_def
  unloadAsync_settled_def createAsync_settled_def

lemmas piece_defs = mount_effect_audio_def mount_effect_start_def mount_effect_permitted_def
  mount_effect_configured_def toggleMic_start_def toggleMic_answered_def addSound_start_def
  addSound_picked_def addSound_created_def playSound_start_def playSound_stopped_def
  playSound_rewound_def playSound_played_def removeSound_start_def removeSound_unloaded_def

text \<open>
  A call and its settling together are the call run through.
\<close>

lemma stopAsync_pieces: "stopAsync h s = stopAsync_settled h (called (StopAsync h) s)"
  by (simp add: stopAsync_def stopAsync_settled_def Let_def)

lemma setPositionAsync_pieces:
  "setPositionAsync h ms s = setPositionAsync_settled h ms (called (SetPositionAsync h ms) s)"
  by (simp add: setPositionAsync_def setPositionAsync_settled_def Let_def)

lemma playAsync_pieces: "playAsync h s = playAsync_settled h (called (PlayAsync h) s)"
  by (simp add: playAsync_def playAsync_settled_def Let_def)

lemma unloadAsync_pieces: "unloadAsync h u s = unloadAsync_settled h u (called (UnloadAsync h) s)"
  by (simp add: unloadAsync_def unloadAsync_settled_def Let_def)

lemma createAsync_pieces: "createAsync u c s = createAsync_settled u c (called (CreateAsync u) s)"
  by (simp add: createAsync_def createAsync_settled_def Let_def)

text \<open>
  A handler whose promises settle before anything else happens does what the handler
  run through does.  A settling event that finds no suspended handler at its index
  changes nothing, so the lists below cover the short paths as well.
\<close>

lemma toggleMic_uninterrupted:
  assumes "mounted s"
  shows "run [PressMic p, Settle (length (pending s)) (Permission r)] s = toggleMic p r s"
  using assms
  by (simp add: toggleMic_def toggleMic_start_def toggleMic_answered_def settle_def call_defs
      split: sum.splits)

lemma addSound_uninterrupted:
  assumes "mounted s"
  shows "run [PressAdd, Settle (length (pending s)) (Picked picked),
              Settle (length (pending s)) (Created created now)] s
         = addSound picked created now s"
  using assms
  by (simp add: addSound_def addSound_try_def addSound_start_def addSound_picked_def
      addSound_created_def createAsync_def createAsync_settled_def settle_def call_defs
      split: sum.splits option.splits)

lemma playSound_uninterrupted:
  assumes "mounted s"
  shows "run [PressPlay x, Settle (length (pending s)) Performed,
              Settle (length (pending s)) Performed, Settle (length (pending s)) Performed] s
         = playSound x s"
  using assms
  by (simp add: playSound_def playSound_start_def playSound_stopped_def playSound_rewound_def
      playSound_played_def player_defs settled_defs settle_def call_defs
      split: sum.splits option.splits)

lemma removeSound_uninterrupted:
  assumes "mounted s"
  shows "run [PressRemove i, Settle (length (pending s)) (Unloaded u)] s = snd (removeSound i u s)"
  using assms
  by (simp add: removeSound_def removeSound_start_def removeSound_unloaded_def unloadAsync_def
      unloadAsync_settled_def settle_def call_defs split: sum.splits option.splits)

section \<open>Reading a trace\<close>

lemma started_not_stopped_append [simp]:
  "started_not_stopped (cs @ ds) = foldl stream_after (started_not_stopped cs) ds"
  by (simp add: started_not_stopped_def)

lemma started_not_stopped_Nil [simp]: "started_not_stopped [] = False"
  by (simp add: started_not_stopped_def)

lemma survivors_Cons:
  "survivors (c # cs) =
     (case c of
        SetSounds u \<Rightarrow>
          (case u of
             Append x \<Rightarrow> if removed_later (item_id x) cs then survivors cs else x # survivors cs
           | Without i \<Rightarrow> survivors cs)
      | _ \<Rightarrow> survivors cs)"
  by (cases c) (simp_all split: sounds_update.splits)

lemma survivors_Append:
  "survivors (cs @ [SetSounds (Append x)]) = survivors cs @ [x]"
proof (induction cs)
  case Nil
  show ?case by (simp add: removed_later_def)
next
  case (Cons c cs)
  have r: "removed_later i (cs @ [SetSounds (Append x)]) = removed_later i cs" for i
    by (simp add: removed_later_def)
  show ?case
    by (simp add: survivors_Cons Cons.IH r split: call.splits sounds_update.splits)
qed

lemma survivors_Without:
  "survivors (cs @ [SetSounds (Without i)]) = filter (\<lambda>x. item_id x \<noteq> i) (survivors cs)"
proof (induction cs)
  case Nil
  show ?case by simp
next
  case (Cons c cs)
  have r: "removed_later j (cs @ [SetSounds (Without i)]) = (removed_later j cs \<or> j = i)" for j
    by (auto simp: removed_later_def)
  show ?case
    by (simp add: survivors_Cons Cons.IH r split: call.splits sounds_update.splits)
qed

lemma survivors_skip:
  assumes "\<not> updates_list c"
  shows "survivors (cs @ c # ds) = survivors (cs @ ds)"
proof (induction cs)
  case Nil
  from assms show ?case by (cases c) auto
next
  case (Cons b cs)
  have r: "removed_later j (cs @ c # ds) = removed_later j (cs @ ds)" for j
    using assms by (cases c) (auto simp: removed_later_def)
  show ?case
    by (simp add: survivors_Cons [of b] Cons.IH r split: call.splits sounds_update.splits)
qed

lemma survivors_update:
  "survivors (cs @ [SetSounds u]) = apply_update u (survivors cs)"
  by (cases u) (simp_all add: survivors_Append survivors_Without)

lemmas survivors_appends = survivors_update survivors_skip

section \<open>What every run preserves\<close>

lemma step_preserves:
  assumes res: "\<And>t a s s'. resume t a s = Some s' \<Longrightarrow> P s \<Longrightarrow> P s'"
    and pre: "\<And>ev s. mounted s \<Longrightarrow> P s \<Longrightarrow> P (press ev s)"
    and pen: "\<And>x s. P s \<Longrightarrow> P (s\<lparr>pending := x\<rparr>)"
    and inv: "P s"
  shows "P (step ev s)"
proof (cases ev)
  case (Settle k a)
  show ?thesis
  proof (cases "k < length (pending s)")
    case True
    let ?s0 = "s\<lparr>pending := take k (pending s) @ drop (Suc k) (pending s)\<rparr>"
    show ?thesis
    proof (cases "resume (pending s ! k) a ?s0")
      case None
      with True inv Settle show ?thesis by (simp add: settle_def)
    next
      case (Some s')
      from res [OF Some pen [OF inv]] have "P s'" .
      with True Some Settle show ?thesis by (simp add: settle_def)
    qed
  next
    case False
    with inv Settle show ?thesis by (simp add: settle_def)
  qed
next
  case (Data d)
  with inv show ?thesis by (simp add: on_data_def)
next
  case (Mount p)
  with inv pre [of s ev] show ?thesis by simp
next
  case (PressMic p)
  with inv pre [of s ev] show ?thesis by simp
next
  case PressAdd
  with inv pre [of s ev] show ?thesis by simp
next
  case (PressPlay x)
  with inv pre [of s ev] show ?thesis by simp
next
  case (PressRemove i)
  with inv pre [of s ev] show ?thesis by simp
next
  case Unmount
  with inv pre [of s ev] show ?thesis by simp
qed

lemma run_preserves:
  assumes res: "\<And>t a s s'. resume t a s = Some s' \<Longrightarrow> P s \<Longrightarrow> P s'"
    and pre: "\<And>ev s. mounted s \<Longrightarrow> P s \<Longrightarrow> P (press ev s)"
    and pen: "\<And>x s. P s \<Longrightarrow> P (s\<lparr>pending := x\<rparr>)"
    and inv: "P s"
  shows "P (run evs s)"
  using inv
proof (induction evs arbitrary: s)
  case Nil
  then show ?case by simp
next
  case (Cons ev evs)
  have "P (step ev s)"
    by (rule step_preserves [of P, OF res pre pen Cons.prems])
  then show ?case by (simp add: Cons.IH)
qed

subsection \<open>The flag and the stream\<close>

lemma stream_inv_called:
  "stream_inv s \<Longrightarrow> c \<noteq> LiveAudioStream_start \<Longrightarrow> c \<noteq> LiveAudioStream_stop \<Longrightarrow> stream_inv (called c s)"
  by (simp add: stream_inv_def called_def stream_after_def)

lemma stream_inv_frame:
  "stream_inv s \<Longrightarrow> stream_inv (s\<lparr>pending := x\<rparr>)"
  "stream_inv s \<Longrightarrow> stream_inv (s\<lparr>players := y\<rparr>)"
  "stream_inv s \<Longrightarrow> stream_inv (s\<lparr>players := y, nextObj := z\<rparr>)"
  "stream_inv s \<Longrightarrow> stream_inv (suspend t s)"
  "stream_inv s \<Longrightarrow> stream_inv (setSounds u s)"
  by (simp_all add: stream_inv_def call_defs stream_after_def)

lemma stream_inv_toggle:
  "stream_inv s \<Longrightarrow> stream_inv (setIsMicOn True (LiveAudioStream_start_call s))"
  "stream_inv s \<Longrightarrow> stream_inv (setIsMicOn False (LiveAudioStream_stop_call s))"
  "stream_inv s \<Longrightarrow> stream_inv (cleanup s)"
  by (simp_all add: stream_inv_def call_defs cleanup_def stream_after_def)

lemma pieces_stream_inv:
  assumes "stream_inv s"
  shows "stream_inv (mount_effect_audio s)"
    and "stream_inv (mount_effect_start p s)"
    and "stream_inv (mount_effect_permitted r s)"
    and "stream_inv (mount_effect_configured m s)"
    and "stream_inv (toggleMic_start p s)"
    and "stream_inv (toggleMic_answered r s)"
    and "stream_inv (addSound_start s)"
    and "stream_inv (addSound_picked picked s)"
    and "stream_inv (addSound_created f created now s)"
    and "stream_inv (playSound_start x s)"
    and "stream_inv (playSound_stopped x s)"
    and "stream_inv (playSound_rewound x s)"
    and "stream_inv (playSound_played x s)"
    and "stream_inv (removeSound_start i s)"
    and "stream_inv (removeSound_unloaded i h u s)"
  using assms
  by (simp_all add: piece_defs settled_defs stream_inv_called stream_inv_frame stream_inv_toggle
      split: sum.splits option.splits)

lemma resume_stream_inv: "resume t a s = Some s' \<Longrightarrow> stream_inv s \<Longrightarrow> stream_inv s'"
  by (cases t; cases a) (auto simp: pieces_stream_inv)

lemma press_stream_inv: "mounted s \<Longrightarrow> stream_inv s \<Longrightarrow> stream_inv (press ev s)"
  by (cases ev) (simp_all add: pieces_stream_inv stream_inv_toggle)

lemma run_stream_inv: "stream_inv s \<Longrightarrow> stream_inv (run evs s)"
  by (rule run_preserves [of stream_inv])
     (simp_all add: resume_stream_inv press_stream_inv stream_inv_frame)

lemma init_stream_inv: "stream_inv init_state"
  by (simp add: stream_inv_def init_state_def)

subsection \<open>The list and the trace\<close>








subsection \<open>Silence without triggers\<close>

lemma quiet_frame:
  "quiet s \<Longrightarrow> quiet (called c s)"
  "quiet s \<Longrightarrow> quiet (setSounds u s)"
  "quiet s \<Longrightarrow> quiet (setIsMicOn b s)"
  "quiet s \<Longrightarrow> quiet (LiveAudioStream_start_call s)"
  "quiet s \<Longrightarrow> quiet (LiveAudioStream_stop_call s)"
  "quiet s \<Longrightarrow> quiet (cleanup s)"
  "quiet s \<Longrightarrow> \<not> play_task t \<Longrightarrow> quiet (suspend t s)"
  by (simp_all add: quiet_def call_defs cleanup_def)

lemma pieces_quiet:
  assumes "quiet s"
  shows "quiet (mount_effect_audio s)"
    and "quiet (mount_effect_start p s)"
    and "quiet (mount_effect_permitted r s)"
    and "quiet (mount_effect_configured m s)"
    and "quiet (toggleMic_start p s)"
    and "quiet (toggleMic_answered r s)"
    and "quiet (addSound_start s)"
    and "quiet (addSound_picked picked s)"
    and "quiet (removeSound_start i s)"
  using assms
  by (simp_all add: piece_defs quiet_frame split: sum.splits option.splits)

lemma created_quiet: "quiet s \<Longrightarrow> quiet (addSound_created f created now s)"
  by (auto simp: addSound_created_def createAsync_settled_def quiet_def call_defs
      split: option.splits)

lemma unloaded_quiet: "quiet s \<Longrightarrow> quiet (removeSound_unloaded i h u s)"
  by (auto simp: removeSound_unloaded_def unloadAsync_settled_def quiet_def call_defs
      split: option.splits)

lemma resume_quiet: "\<not> play_task t \<Longrightarrow> resume t a s = Some s' \<Longrightarrow> quiet s \<Longrightarrow> quiet s'"
  by (cases t; cases a) (auto simp: pieces_quiet created_quiet unloaded_quiet)

lemma quiet_settle: "quiet s \<Longrightarrow> quiet (settle k a s)"
proof (cases "k < length (pending s)")
  case True
  assume q: "quiet s"
  let ?s0 = "s\<lparr>pending := take k (pending s) @ drop (Suc k) (pending s)\<rparr>"
  from True have "pending s ! k \<in> set (pending s)" by simp
  with q have np: "\<not> play_task (pending s ! k)" by (simp add: quiet_def)
  have "set (take k (pending s) @ drop (Suc k) (pending s)) \<subseteq> set (pending s)"
    using set_take_subset [of k "pending s"] set_drop_subset [of "Suc k" "pending s"] by auto
  with q have q0: "quiet ?s0" by (auto simp: quiet_def)
  show ?thesis
  proof (cases "resume (pending s ! k) a ?s0")
    case None
    with True q show ?thesis by (simp add: settle_def)
  next
    case (Some s')
    from resume_quiet [OF np Some q0] True Some show ?thesis by (simp add: settle_def)
  qed
next
  case False
  assume "quiet s"
  with False show ?thesis by (simp add: settle_def)
qed

lemma step_quiet: "triggered [ev] = [] \<Longrightarrow> quiet s \<Longrightarrow> quiet (step ev s)"
  by (cases ev) (simp_all add: quiet_settle on_data_def pieces_quiet quiet_frame)

lemma triggered_Cons: "triggered (ev # evs) = triggered [ev] @ triggered evs"
  by (cases ev) simp_all

lemma run_quiet: "triggered evs = [] \<Longrightarrow> quiet s \<Longrightarrow> quiet (run evs s)"
proof (induction evs arbitrary: s)
  case Nil
  then show ?case by simp
next
  case (Cons ev evs)
  from Cons.prems(1) have t: "triggered [ev] = []" "triggered evs = []"
    by (simp_all add: triggered_Cons [of ev evs])
  from step_quiet [OF t(1) Cons.prems(2)] have "quiet (step ev s)" .
  from Cons.IH [OF t(2) this] show ?case by simp
qed

lemma init_quiet: "quiet init_state"
  by (simp add: quiet_def init_state_def)

lemma quiet_sounding: "quiet s \<Longrightarrow> sounding s = []"
  by (auto simp: quiet_def sounding_def filter_empty_conv split: option.splits)

lemma step_recapture: "step (recapture d ev) s = step ev s"
  by (cases ev) (simp_all add: on_data_def)

lemma run_recapture: "run (map (recapture d) evs) s = run evs s"
  by (induction evs arbitrary: s) (simp_all add: step_recapture)

subsection \<open>Identifiers\<close>

lemma list_move_same [simp]: "list_move ns xs xs"
  by (simp add: list_move_def)

lemma toString_nonempty: "toString n \<noteq> []"
  by (subst toString.simps) simp

lemma digit_char_inj: "a < 10 \<Longrightarrow> b < 10 \<Longrightarrow> digit_char a = digit_char b \<Longrightarrow> a = b"
proof -
  assume "a < 10" "b < 10" "digit_char a = digit_char b"
  moreover have "a < 10 \<Longrightarrow> a \<in> {0,1,2,3,4,5,6,7,8,9}" by auto
  moreover have "b < 10 \<Longrightarrow> b \<in> {0,1,2,3,4,5,6,7,8,9}" by auto
  ultimately show "a = b"
    by (auto simp: digit_char_def)
qed

lemma toString_inj: "toString m = toString n \<Longrightarrow> m = n"
proof (induction m arbitrary: n rule: toString.induct)
  case (1 m)
  show ?case
  proof (cases "m < 10")
    case True
    then have m: "toString m = [digit_char m]" by (subst toString.simps) simp
    show ?thesis
    proof (cases "n < 10")
      case nt: True
      then have "toString n = [digit_char n]" by (subst toString.simps) simp
      with m "1.prems" True nt show ?thesis by (auto dest: digit_char_inj)
    next
      case False
      then have "toString n = toString (n div 10) @ [digit_char (n mod 10)]"
        by (subst toString.simps) simp
      with m "1.prems" toString_nonempty [of "n div 10"] show ?thesis by simp
    qed
  next
    case False
    then have m: "toString m = toString (m div 10) @ [digit_char (m mod 10)]"
      by (subst toString.simps) simp
    show ?thesis
    proof (cases "n < 10")
      case True
      then have "toString n = [digit_char n]" by (subst toString.simps) simp
      with m "1.prems" toString_nonempty [of "m div 10"] show ?thesis by simp
    next
      case nf: False
      then have n: "toString n = toString (n div 10) @ [digit_char (n mod 10)]"
        by (subst toString.simps) simp
      from m n "1.prems" have a: "toString (m div 10) = toString (n div 10)"
        and b: "digit_char (m mod 10) = digit_char (n mod 10)" by simp_all
      from "1.IH" [OF False a] have "m div 10 = n div 10" .
      moreover from b have "m mod 10 = n mod 10" by (rule digit_char_inj [rotated 2]) simp_all
      ultimately show ?thesis by (metis div_mult_mod_eq)
    qed
  qed
qed

lemma pieces_sounds:
  "sounds (mount_effect_audio s) = sounds s"
  "sounds (mount_effect_start p s) = sounds s"
  "sounds (mount_effect_permitted r s) = sounds s"
  "sounds (mount_effect_configured m s) = sounds s"
  "sounds (toggleMic_start p s) = sounds s"
  "sounds (toggleMic_answered r s) = sounds s"
  "sounds (addSound_start s) = sounds s"
  "sounds (addSound_picked picked s) = sounds s"
  "sounds (playSound_start x s) = sounds s"
  "sounds (playSound_stopped x s) = sounds s"
  "sounds (playSound_rewound x s) = sounds s"
  "sounds (playSound_played x s) = sounds s"
  "sounds (cleanup s) = sounds s"
  by (simp_all add: piece_defs settled_defs call_defs cleanup_def split: sum.splits option.splits)

lemma created_sounds:
  "list_move [now] (sounds s) (sounds (addSound_created f created now s))"
  by (auto simp: list_move_def addSound_created_def createAsync_settled_def call_defs newSound_def
      split: option.splits)

lemma removed_sounds:
  "list_move ns (sounds s) (sounds (removeSound_start i s))"
  "list_move ns (sounds s) (sounds (removeSound_unloaded i h u s))"
  by (auto simp: list_move_def removeSound_start_def removeSound_unloaded_def
      unloadAsync_settled_def call_defs split: option.splits)

lemma resume_sounds:
  "resume t a s = Some s' \<Longrightarrow> list_move (clock_readings [Settle k a]) (sounds s) (sounds s')"
  by (cases t; cases a) (auto simp: pieces_sounds created_sounds removed_sounds)

lemma step_sounds: "list_move (clock_readings [ev]) (sounds s) (sounds (step ev s))"
proof (cases ev)
  case (Settle k a)
  show ?thesis
  proof (cases "k < length (pending s)")
    case True
    let ?s0 = "s\<lparr>pending := take k (pending s) @ drop (Suc k) (pending s)\<rparr>"
    show ?thesis
    proof (cases "resume (pending s ! k) a ?s0")
      case None
      with True Settle show ?thesis by (simp add: settle_def)
    next
      case (Some s')
      from resume_sounds [OF Some, of k] True Some Settle show ?thesis by (simp add: settle_def)
    qed
  next
    case False
    with Settle show ?thesis by (simp add: settle_def)
  qed
qed (simp_all add: on_data_def pieces_sounds removed_sounds)

lemma list_move_distinct:
  assumes "list_move ns xs ys" and "distinct (map item_id xs)"
    and "\<forall>n \<in> set ns. toString n \<notin> set (map item_id xs)"
  shows "distinct (map item_id ys)"
  using assms by (auto simp: list_move_def distinct_map_filter)

lemma list_move_ids:
  assumes "list_move ns xs ys"
  shows "set (map item_id ys) \<subseteq> set (map item_id xs) \<union> toString ` set ns"
  using assms by (auto simp: list_move_def)

lemma clock_readings_Cons: "clock_readings (ev # evs) = clock_readings [ev] @ clock_readings evs"
proof (cases ev)
  case (Settle k a)
  then show ?thesis by (cases a) simp_all
qed simp_all

lemma run_keeps_ids_distinct:
  assumes "distinct (map item_id (sounds s))"
    and "distinct (clock_readings evs)"
    and "\<forall>n \<in> set (clock_readings evs). toString n \<notin> set (map item_id (sounds s))"
  shows "distinct (map item_id (sounds (run evs s)))"
  using assms
proof (induction evs arbitrary: s)
  case Nil
  then show ?case by simp
next
  case (Cons ev evs)
  have cr: "clock_readings (ev # evs) = clock_readings [ev] @ clock_readings evs"
    by (rule clock_readings_Cons)
  have mv: "list_move (clock_readings [ev]) (sounds s) (sounds (step ev s))"
    by (rule step_sounds)
  have d1: "distinct (map item_id (sounds (step ev s)))"
    using Cons.prems(1,3) by (intro list_move_distinct [OF mv]) (simp_all add: cr)
  have d2: "distinct (clock_readings evs)"
    using Cons.prems(2) by (simp add: cr)
  have d3: "\<forall>n \<in> set (clock_readings evs). toString n \<notin> set (map item_id (sounds (step ev s)))"
  proof
    fix n assume n: "n \<in> set (clock_readings evs)"
    show "toString n \<notin> set (map item_id (sounds (step ev s)))"
    proof
      assume "toString n \<in> set (map item_id (sounds (step ev s)))"
      with list_move_ids [OF mv]
      have "toString n \<in> set (map item_id (sounds s)) \<or> toString n \<in> toString ` set (clock_readings [ev])"
        by blast
      then show False
      proof
        assume "toString n \<in> set (map item_id (sounds s))"
        with Cons.prems(3) n show False by (simp add: cr)
      next
        assume "toString n \<in> toString ` set (clock_readings [ev])"
        then obtain m where m: "m \<in> set (clock_readings [ev])" "toString n = toString m" by blast
        then have "n = m" by (simp add: toString_inj)
        with m(1) n Cons.prems(2) show False by (auto simp: cr)
      qed
    qed
  qed
  show ?case using Cons.IH [OF d1 d2 d3] by simp
qed

text \<open>
  The identifiers of the list are pairwise distinct as long as no two appends read the
  same clock value.
\<close>

lemma ids_distinct_when_clock_readings_differ:
  "distinct (clock_readings evs) \<Longrightarrow> distinct (map item_id (sounds (run evs init_state)))"
  by (rule run_keeps_ids_distinct) (simp_all add: init_state_def)

subsection \<open>Single handlers\<close>

text \<open>
\<open>playSound\<close> on a loaded sound object.
\<close>

lemma playSound_loaded:
  assumes "players s (soundObj x) = Some p" and "loaded p"
  shows "playSound x s =
           s\<lparr>trace := trace s @ [StopAsync (soundObj x), SetPositionAsync (soundObj x) 0,
                                 PlayAsync (soundObj x)],
             players := (players s)(soundObj x \<mapsto> p\<lparr>position := 0, playing := True\<rparr>)\<rparr>"
  using assms by (simp add: playSound_def player_defs called_def)

text \<open>
  With ids that are pairwise distinct, filtering by the id of a listed item removes that
  item and nothing else.
\<close>

lemma filter_id_remove1:
  assumes "find (\<lambda>x. item_id x = i) xs = Some x" and "distinct (map item_id xs)"
  shows "filter (\<lambda>y. item_id y \<noteq> i) xs = remove1 x xs"
  using assms
proof (induction xs)
  case Nil
  then show ?case by simp
next
  case (Cons a xs)
  show ?case
  proof (cases "item_id a = i")
    case True
    with Cons.prems have ax: "a = x" and ni: "i \<notin> set (map item_id xs)" by auto
    from ni have "filter (\<lambda>y. item_id y \<noteq> i) xs = xs"
      by (auto simp: filter_id_conv)
    with True ax show ?thesis by simp
  next
    case False
    with Cons.prems have f: "find (\<lambda>x. item_id x = i) xs = Some x" and d: "distinct (map item_id xs)"
      by auto
    from f have "item_id x = i" by (auto simp: find_Some_iff)
    with False have "a \<noteq> x" by auto
    with False Cons.IH [OF f d] show ?thesis by simp
  qed
qed

text \<open>
  When the unload rejects, \<open>removeSound\<close> rejects with the same error; the list is not
  touched.
\<close>

lemma removeSound_unload_rejected:
  assumes "find (\<lambda>x. item_id x = i) (sounds s) = Some x"
  shows "removeSound i (Some err) s = (Inl err, s\<lparr>trace := trace s @ [UnloadAsync (soundObj x)]\<rparr>)"
  using assms by (simp add: removeSound_def unloadAsync_def call_defs)

section \<open>Evaluation on the sample inputs\<close>

lemmas demo_defs = demo_file_def demo_pick_def demo_cancel_def demo_item_def demo_playing_def
  demo_file2_def demo_pick2_def

lemma toString_demo: "toString 1700000000000 = ''1700000000000''"
  by (simp add: toString.simps digit_char_def)

lemma toString_demo2: "toString 1700000000001 = ''1700000000001''"
  by (simp add: toString.simps digit_char_def)

lemmas handler_defs = toggleMic_def addSound_def addSound_try_def playSound_def removeSound_def
  on_data_def cleanup_def picked_file_def newSound_def

lemmas eval_defs = handler_defs piece_defs settled_defs call_defs player_defs settle_def demo_defs
  init_state_def toString_demo toString_demo2 cards_def card_def removed_later_def

section \<open>Properties\<close>

subsection \<open>Captured frames\<close>

text \<open>
  Claim C1 says that in a live session in which no soundboard clip is triggered the
  output stream equals the capture stream, sample for sample.  The listener registered
  on \<open>'data'\<close> has an empty body; the only way the component produces sound is a
  sound object that is loaded and playing.  What holds instead, for every sequence of
  events in which no clip is triggered: no sound object is producing sound, and the
  state reached is the same whatever the captured chunks are.  So nothing of the
  capture is reproduced on the output.
\<close>

theorem capture_without_clips_is_dropped:
  assumes "triggered evs = []"
  shows "sounding (run evs init_state) = []
       \<and> run (map (recapture d) evs) init_state = run evs init_state"
proof -
  have "quiet (run evs init_state)"
    by (rule run_quiet [OF assms init_quiet])
  then have "sounding (run evs init_state) = []"
    by (rule quiet_sounding)
  then show ?thesis by (simp add: run_recapture)
qed

theorem capture_without_clips_is_dropped_witness:
  "triggered [PressMic (Some ''granted''), Data ''AAAA'', Data ''BBBB''] = []
   \<and> captured [PressMic (Some ''granted''), Data ''AAAA'', Data ''BBBB''] = [''AAAA'', ''BBBB'']
   \<and> sounding (run [PressMic (Some ''granted''), Data ''AAAA'', Data ''BBBB''] init_state) = []
   \<and> run [PressMic (Some ''granted''), Data [], Data []] init_state
       = run [PressMic (Some ''granted''), Data ''AAAA'', Data ''BBBB''] init_state"
proof -
  have h: "triggered [PressMic (Some ''granted''), Data ''AAAA'', Data ''BBBB''] = []" by simp
  show ?thesis
    using h capture_without_clips_is_dropped [OF h, of "[]"] by simp
qed

text \<open>
  C1 as stated fails: broadcasting is switched on and the chunk ''AAAA'' is captured, no
  clip is triggered; the stream is live, no sound object is producing sound, the only
  calls made are the start of the stream and the setting of the flag, and the state is
  the one reached when ''BBBB'' is captured instead.
\<close>

theorem output_equals_capture_counterexample:
  "triggered [PressMic (Some ''granted''), Data ''AAAA''] = []
   \<and> captured [PressMic (Some ''granted''), Data ''AAAA''] = [''AAAA'']
   \<and> streaming (run [PressMic (Some ''granted''), Data ''AAAA''] init_state)
   \<and> sounding (run [PressMic (Some ''granted''), Data ''AAAA''] init_state) = []
   \<and> trace (run [PressMic (Some ''granted''), Data ''AAAA''] init_state)
       = [LiveAudioStream_start, SetIsMicOn True]
   \<and> run [PressMic (Some ''granted''), Data ''AAAA''] init_state
       = run [PressMic (Some ''granted''), Data ''BBBB''] init_state"
  by (simp add: eval_defs sounding_def)

subsection \<open>Playing a sound that is already playing\<close>

text \<open>
  Claim C2 says that playing an asset that is already playing starts a second,
  independent voice and leaves the first alone.  \<open>playSound\<close> calls
  \<open>stopAsync\<close>, \<open>setPositionAsync(0)\<close> and \<open>playAsync\<close> on the one sound object
  of the item.  What holds instead: for an item whose sound object is loaded, that same
  object is rewound to position 0 and played; no sound object is created, and the set
  of sound objects is as before.
\<close>

theorem playSound_restarts_same_object:
  assumes "players s (soundObj x) = Some p" and "loaded p"
  shows "players (playSound x s) = (players s)(soundObj x \<mapsto> p\<lparr>position := 0, playing := True\<rparr>)
       \<and> dom (players (playSound x s)) = dom (players s)
       \<and> nextObj (playSound x s) = nextObj s
       \<and> trace (playSound x s) =
           trace s @ [StopAsync (soundObj x), SetPositionAsync (soundObj x) 0, PlayAsync (soundObj x)]"
  using assms by (auto simp: playSound_loaded)

theorem playSound_restarts_same_object_witness:
  "players demo_playing (soundObj demo_item) =
      Some \<lparr>loaded = True, playing = True, position = 5000, source = Some ''file:///cache/horn.mp3''\<rparr>
   \<and> players (playSound demo_item demo_playing) 0 =
      Some \<lparr>loaded = True, playing = True, position = 0, source = Some ''file:///cache/horn.mp3''\<rparr>
   \<and> dom (players (playSound demo_item demo_playing)) = {0}"
  using playSound_restarts_same_object [of demo_playing demo_item
     "\<lparr>loaded = True, playing = True, position = 5000, source = Some ''file:///cache/horn.mp3''\<rparr>"]
  by (simp add: demo_defs init_state_def)

text \<open>
  C2 as stated fails: the sound has been playing for five seconds; after \<open>playSound\<close>
  there is still one sound object, it was stopped and rewound, and it plays from 0.
\<close>

theorem second_voice_counterexample:
  "players demo_playing 0 =
      Some \<lparr>loaded = True, playing = True, position = 5000, source = Some ''file:///cache/horn.mp3''\<rparr>
   \<and> players (playSound demo_item demo_playing) 0 =
      Some \<lparr>loaded = True, playing = True, position = 0, source = Some ''file:///cache/horn.mp3''\<rparr>
   \<and> dom (players (playSound demo_item demo_playing)) = {0}
   \<and> nextObj (playSound demo_item demo_playing) = nextObj demo_playing
   \<and> trace (playSound demo_item demo_playing) = [StopAsync 0, SetPositionAsync 0 0, PlayAsync 0]"
  by (simp add: demo_defs init_state_def playSound_def player_defs called_def)

subsection \<open>Removing a sound that is playing\<close>

text \<open>
  Claim C3 says that the audio of a removed asset is kept until the voice playing it
  ends.  \<open>removeSound\<close> awaits \<open>unloadAsync\<close> on the sound object of the item before
  it filters the list, whatever the object is doing.  What holds instead, in a list
  whose ids are pairwise distinct: for the id of a listed item, when the unload
  succeeds, the sound object of that item is unloaded (and so stopped) at once, the item
  leaves the list and the other items keep their order.
\<close>

theorem removeSound_unloads_at_once:
  assumes "mounted s"
    and "find (\<lambda>x. item_id x = i) (sounds s) = Some x"
    and "distinct (map item_id (sounds s))"
    and "players s (soundObj x) = Some p"
  shows "removeSound i None s =
           (Inr JUndefined,
            s\<lparr>sounds := remove1 x (sounds s),
              players := (players s)(soundObj x \<mapsto> p\<lparr>loaded := False, playing := False\<rparr>),
              trace := trace s @ [UnloadAsync (soundObj x), SetSounds (Without i)]\<rparr>)"
  using assms
  by (simp add: removeSound_def unloadAsync_def call_defs filter_id_remove1)

theorem removeSound_unloads_at_once_witness:
  "mounted demo_playing
   \<and> find (\<lambda>x. item_id x = ''1700000000000'') (sounds demo_playing) = Some demo_item
   \<and> distinct (map item_id (sounds demo_playing))
   \<and> players demo_playing (soundObj demo_item) =
        Some \<lparr>loaded = True, playing = True, position = 5000, source = Some ''file:///cache/horn.mp3''\<rparr>
   \<and> players (snd (removeSound ''1700000000000'' None demo_playing)) 0 =
        Some \<lparr>loaded = False, playing = False, position = 5000, source = Some ''file:///cache/horn.mp3''\<rparr>
   \<and> sounds (snd (removeSound ''1700000000000'' None demo_playing)) = []"
  using removeSound_unloads_at_once [of demo_playing "''1700000000000''" demo_item
     "\<lparr>loaded = True, playing = True, position = 5000, source = Some ''file:///cache/horn.mp3''\<rparr>"]
  by (simp add: demo_defs init_state_def)

text \<open>
  C3 as stated fails: the sound is loaded and producing sound, and right after
  \<open>removeSound\<close> it is unloaded and silent.
\<close>

theorem deferred_release_counterexample:
  "players demo_playing 0 =
      Some \<lparr>loaded = True, playing = True, position = 5000, source = Some ''file:///cache/horn.mp3''\<rparr>
   \<and> sounding demo_playing = [0]
   \<and> players (snd (removeSound ''1700000000000'' None demo_playing)) 0 =
      Some \<lparr>loaded = False, playing = False, position = 5000, source = Some ''file:///cache/horn.mp3''\<rparr>
   \<and> sounding (snd (removeSound ''1700000000000'' None demo_playing)) = []"
  by (simp add: demo_defs init_state_def removeSound_def unloadAsync_def call_defs sounding_def)

subsection \<open>Starting without permission\<close>

text \<open>
  Claim C4: when broadcasting is off, the permission was not granted at render time and
  the request made by \<open>toggleMic\<close> is answered with a status other than
  \<open>'granted'\<close>, the handler only requests the permission and shows the alert
  "Permission Required".  The flag stays false, the stream state is untouched, and
  \<open>LiveAudioStream.start\<close> is not among the calls made.
\<close>

theorem toggleMic_permission_denied:
  assumes "\<not> isMicOn s" and "permissionStatus \<noteq> Some ''granted''" and "status \<noteq> ''granted''"
  shows "toggleMic permissionStatus (Inr status) s =
           s\<lparr>trace := trace s @ [RequestPermission,
                Alert_alert ''Permission Required'' ''Microphone permission is needed.'']\<rparr>
         \<and> \<not> isMicOn (toggleMic permissionStatus (Inr status) s)
         \<and> streaming (toggleMic permissionStatus (Inr status) s) = streaming s
         \<and> LiveAudioStream_start \<notin> set (drop (length (trace s)) (trace (toggleMic permissionStatus (Inr status) s)))"
  using assms by (simp add: toggleMic_def call_defs)

theorem toggleMic_permission_denied_witness:
  "\<not> isMicOn init_state \<and> (None :: string option) \<noteq> Some ''granted'' \<and> ''denied'' \<noteq> ''granted'' \<and>
   toggleMic None (Inr ''denied'') init_state =
     init_state\<lparr>trace := [RequestPermission,
        Alert_alert ''Permission Required'' ''Microphone permission is needed.'']\<rparr> \<and>
   \<not> streaming (toggleMic None (Inr ''denied'') init_state)"
  using toggleMic_permission_denied [of init_state None "''denied''"]
  by (simp add: init_state_def)

subsection \<open>A failing \<open>addSound\<close>\<close>

text \<open>
  Claim C5: when the \<open>try\<close> block of \<open>addSound\<close> throws (the picker rejects, the
  picked file is missing from \<open>assets\<close>, or \<open>createAsync\<close> rejects), the sound list
  and what is rendered from it, the broadcasting flag, the stream and the sound objects
  are exactly as before the call.  Only the console message is added to the trace.
\<close>

theorem addSound_failure_leaves_state:
  assumes "fst (addSound_try picked created now s) = Inl err"
  shows "sounds (addSound picked created now s) = sounds s
       \<and> cards (addSound picked created now s) = cards s
       \<and> isMicOn (addSound picked created now s) = isMicOn s
       \<and> streaming (addSound picked created now s) = streaming s
       \<and> players (addSound picked created now s) = players s
       \<and> nextObj (addSound picked created now s) = nextObj s"
proof -
  obtain s1 where e: "addSound_try picked created now s = (Inl err, s1)"
    using assms by (cases "addSound_try picked created now s") simp
  have s1: "sounds s1 = sounds s \<and> players s1 = players s \<and> nextObj s1 = nextObj s
            \<and> isMicOn s1 = isMicOn s \<and> streaming s1 = streaming s"
    using e by (auto simp: addSound_try_def createAsync_def called_def Let_def
        split: sum.splits option.splits if_splits)
  have "addSound picked created now s = called (Console_log ''Error picking file:'' err) s1"
    by (simp add: addSound_def e)
  then have "sounds (addSound picked created now s) = sounds s
       \<and> players (addSound picked created now s) = players s
       \<and> nextObj (addSound picked created now s) = nextObj s
       \<and> isMicOn (addSound picked created now s) = isMicOn s
       \<and> streaming (addSound picked created now s) = streaming s"
    using s1 by (simp add: called_def)
  then show ?thesis by (simp add: cards_def)
qed

theorem addSound_failure_leaves_state_witness:
  "fst (addSound_try (Inr demo_pick) (Some (NativeError ''unsupported format'')) 1700000000000 demo_playing)
     = Inl (NativeError ''unsupported format'')
   \<and> sounds (addSound (Inr demo_pick) (Some (NativeError ''unsupported format'')) 1700000000000 demo_playing)
     = [demo_item]
   \<and> players (addSound (Inr demo_pick) (Some (NativeError ''unsupported format'')) 1700000000000 demo_playing)
     = players demo_playing"
proof -
  have h: "fst (addSound_try (Inr demo_pick) (Some (NativeError ''unsupported format'')) 1700000000000 demo_playing)
     = Inl (NativeError ''unsupported format'')"
    by (simp add: addSound_try_def createAsync_def called_def picked_file_def demo_pick_def demo_file_def)
  have "sounds demo_playing = [demo_item]"
    by (simp add: demo_playing_def)
  then show ?thesis
    using h addSound_failure_leaves_state [OF h] by simp
qed

subsection \<open>Removing an unknown id\<close>

text \<open>
  Claim C6 says that \<open>removeSound\<close> returns \<open>false\<close> for an id that is not in the
  list.  The function has no \<open>return\<close> statement.  What holds instead: for an id that
  is not in the list the call resolves to \<open>undefined\<close>, unloads nothing and leaves
  the list as it was; the only call made is the \<open>setSounds\<close> with the filter.
\<close>

theorem removeSound_unknown_id:
  assumes "i \<notin> set (map item_id (sounds s))"
  shows "removeSound i unloaded s =
           (Inr JUndefined, if mounted s then s\<lparr>trace := trace s @ [SetSounds (Without i)]\<rparr> else s)"
proof -
  have nf: "find (\<lambda>x. item_id x = i) (sounds s) = None"
    using assms by (auto simp: find_None_iff)
  have fl: "filter (\<lambda>x. item_id x \<noteq> i) (sounds s) = sounds s"
    using assms by (auto simp: filter_id_conv)
  show ?thesis
    by (simp add: removeSound_def nf fl call_defs)
qed

theorem removeSound_unknown_id_witness:
  "''42'' \<notin> set (map item_id (sounds demo_playing))
   \<and> removeSound ''42'' None demo_playing
       = (Inr JUndefined, demo_playing\<lparr>trace := [SetSounds (Without ''42'')]\<rparr>)
   \<and> sounds (snd (removeSound ''42'' None demo_playing)) = [demo_item]
   \<and> players (snd (removeSound ''42'' None demo_playing)) = players demo_playing"
proof -
  have h: "''42'' \<notin> set (map item_id (sounds demo_playing))"
    by (simp add: demo_defs)
  show ?thesis
    using h removeSound_unknown_id [OF h, of None] by (simp add: demo_playing_def init_state_def)
qed

text \<open>
C6 as stated fails: the id ''42'' is not in the list and the result is not \<open>false\<close>.
\<close>

theorem removeSound_returns_false_counterexample:
  "''42'' \<notin> set (map item_id (sounds demo_playing))
   \<and> fst (removeSound ''42'' None demo_playing) \<noteq> Inr (JBool False)"
  by (simp add: demo_defs removeSound_def call_defs init_state_def)

subsection \<open>Order of the list\<close>




subsection \<open>Identifiers\<close>

text \<open>
  Claim C8 says that identifiers of listed sounds never collide.  The identifier is the
  millisecond clock reading, so two sounds added with the same reading share it.  The
  evaluation below adds two files at the same reading: both get the id
  ''1700000000000''; removing by that id then empties the list and unloads only the
  first sound object, the second stays loaded with no card left to reach it.  The last
  line gives the events of which the two adds consist.
\<close>

theorem same_millisecond_ids_collide:
  "map item_id (sounds (addSound (Inr demo_pick2) None 1700000000000
                          (addSound (Inr demo_pick) None 1700000000000 init_state)))
     = [''1700000000000'', ''1700000000000'']
   \<and> \<not> distinct (map item_id (sounds (addSound (Inr demo_pick2) None 1700000000000
                          (addSound (Inr demo_pick) None 1700000000000 init_state))))
   \<and> sounds (snd (removeSound ''1700000000000'' None
               (addSound (Inr demo_pick2) None 1700000000000
                  (addSound (Inr demo_pick) None 1700000000000 init_state)))) = []
   \<and> players (snd (removeSound ''1700000000000'' None
               (addSound (Inr demo_pick2) None 1700000000000
                  (addSound (Inr demo_pick) None 1700000000000 init_state)))) 1
       = Some \<lparr>loaded = True, playing = False, position = 0, source = Some ''file:///cache/siren.mp3''\<rparr>
   \<and> run [PressAdd, Settle 0 (Picked (Inr demo_pick)), Settle 0 (Created None 1700000000000),
           PressAdd, Settle 0 (Picked (Inr demo_pick2)), Settle 0 (Created None 1700000000000)] init_state
       = addSound (Inr demo_pick2) None 1700000000000
           (addSound (Inr demo_pick) None 1700000000000 init_state)"
  by (simp add: eval_defs)

subsection \<open>The broadcasting flag and the stream\<close>

text \<open>
  Claim C9 says that at every reachable state the flag \<open>isMicOn\<close>, and the status
  text derived from it, is on exactly when the stream has been started and not stopped
  since.  The cleanup of the effect stops the stream and leaves the flag.  What holds
  instead, after every sequence of events: the native stream is on exactly when the
  trace has a start with no later stop, and while the component is mounted the flag is
  on exactly then, the status text being "BROADCASTING" then and "READY" otherwise.  A
  press while on stops the stream and clears the flag; a press while off with the
  permission granted, and the settling of a granted permission request, start the
  stream and set the flag.
\<close>

theorem mic_flag_tracks_stream:
  "streaming (run evs init_state) = started_not_stopped (trace (run evs init_state))
   \<and> (mounted (run evs init_state) \<longrightarrow>
        isMicOn (run evs init_state) = started_not_stopped (trace (run evs init_state))
        \<and> (statusText (run evs init_state) = ''BROADCASTING'')
            = started_not_stopped (trace (run evs init_state))
        \<and> (statusText (run evs init_state) = ''READY'')
            = (\<not> started_not_stopped (trace (run evs init_state))))
   \<and> (mounted s \<and> isMicOn s \<longrightarrow>
        step (PressMic p) s =
          s\<lparr>isMicOn := False, streaming := False,
            trace := trace s @ [LiveAudioStream_stop, SetIsMicOn False]\<rparr>
        \<and> toggleMic p r s = step (PressMic p) s)
   \<and> (mounted s \<and> \<not> isMicOn s \<longrightarrow>
        step (PressMic (Some ''granted'')) s =
          s\<lparr>isMicOn := True, streaming := True,
            trace := trace s @ [LiveAudioStream_start, SetIsMicOn True]\<rparr>
        \<and> toggleMic (Some ''granted'') r s = step (PressMic (Some ''granted'')) s)
   \<and> (mounted s \<and> k < length (pending s) \<and> pending s ! k = TogglePermission \<longrightarrow>
        step (Settle k (Permission (Inr ''granted''))) s =
          s\<lparr>isMicOn := True, streaming := True,
            pending := take k (pending s) @ drop (Suc k) (pending s),
            trace := trace s @ [LiveAudioStream_start, SetIsMicOn True]\<rparr>)
   \<and> (mounted s \<and> \<not> isMicOn s \<and> p \<noteq> Some ''granted'' \<longrightarrow>
        toggleMic p (Inr ''granted'') s =
          s\<lparr>isMicOn := True, streaming := True,
            trace := trace s @ [RequestPermission, LiveAudioStream_start, SetIsMicOn True]\<rparr>)"
proof (intro conjI impI)
  have inv: "stream_inv (run evs init_state)"
    by (rule run_stream_inv [OF init_stream_inv])
  then show "streaming (run evs init_state) = started_not_stopped (trace (run evs init_state))"
    by (simp add: stream_inv_def)
  assume m: "mounted (run evs init_state)"
  with inv show eq: "isMicOn (run evs init_state) = started_not_stopped (trace (run evs init_state))"
    by (simp add: stream_inv_def)
  from eq show "(statusText (run evs init_state) = ''BROADCASTING'')
            = started_not_stopped (trace (run evs init_state))"
    by (simp add: statusText_def)
  from eq show "(statusText (run evs init_state) = ''READY'')
            = (\<not> started_not_stopped (trace (run evs init_state)))"
    by (simp add: statusText_def)
next
  assume a: "mounted s \<and> isMicOn s"
  then show "step (PressMic p) s =
          s\<lparr>isMicOn := False, streaming := False,
            trace := trace s @ [LiveAudioStream_stop, SetIsMicOn False]\<rparr>"
    by (simp add: toggleMic_start_def call_defs)
  from a show "toggleMic p r s = step (PressMic p) s"
    by (simp add: toggleMic_def toggleMic_start_def)
next
  assume a: "mounted s \<and> \<not> isMicOn s"
  then show "step (PressMic (Some ''granted'')) s =
          s\<lparr>isMicOn := True, streaming := True,
            trace := trace s @ [LiveAudioStream_start, SetIsMicOn True]\<rparr>"
    by (simp add: toggleMic_start_def call_defs)
  from a show "toggleMic (Some ''granted'') r s = step (PressMic (Some ''granted'')) s"
    by (simp add: toggleMic_def toggleMic_start_def)
next
  assume "mounted s \<and> k < length (pending s) \<and> pending s ! k = TogglePermission"
  then show "step (Settle k (Permission (Inr ''granted''))) s =
          s\<lparr>isMicOn := True, streaming := True,
            pending := take k (pending s) @ drop (Suc k) (pending s),
            trace := trace s @ [LiveAudioStream_start, SetIsMicOn True]\<rparr>"
    by (simp add: settle_def toggleMic_answered_def call_defs)
next
  assume "mounted s \<and> \<not> isMicOn s \<and> p \<noteq> Some ''granted''"
  then show "toggleMic p (Inr ''granted'') s =
          s\<lparr>isMicOn := True, streaming := True,
            trace := trace s @ [RequestPermission, LiveAudioStream_start, SetIsMicOn True]\<rparr>"
    by (simp add: toggleMic_def call_defs)
qed

theorem mic_flag_tracks_stream_witness:
  "mounted (run [PressMic None, Settle 0 (Permission (Inr ''granted''))] init_state)
   \<and> isMicOn (run [PressMic None, Settle 0 (Permission (Inr ''granted''))] init_state)
   \<and> streaming (run [PressMic None, Settle 0 (Permission (Inr ''granted''))] init_state)
   \<and> started_not_stopped (trace (run [PressMic None, Settle 0 (Permission (Inr ''granted''))] init_state))
   \<and> statusText (run [PressMic None, Settle 0 (Permission (Inr ''granted''))] init_state) = ''BROADCASTING''
   \<and> trace (run [PressMic None, Settle 0 (Permission (Inr ''granted''))] init_state)
       = [RequestPermission, LiveAudioStream_start, SetIsMicOn True]
   \<and> step (PressMic None) (run [PressMic None, Settle 0 (Permission (Inr ''granted''))] init_state)
       = init_state\<lparr>trace := [RequestPermission, LiveAudioStream_start, SetIsMicOn True,
                                 LiveAudioStream_stop, SetIsMicOn False]\<rparr>
   \<and> step (PressMic (Some ''granted'')) init_state
       = init_state\<lparr>isMicOn := True, streaming := True,
                      trace := [LiveAudioStream_start, SetIsMicOn True]\<rparr>
   \<and> pending (step (PressMic None) init_state) = [TogglePermission]
   \<and> step (Settle 0 (Permission (Inr ''granted''))) (step (PressMic None) init_state)
       = init_state\<lparr>isMicOn := True, streaming := True,
                      trace := [RequestPermission, LiveAudioStream_start, SetIsMicOn True]\<rparr>
   \<and> toggleMic None (Inr ''granted'') init_state
       = init_state\<lparr>isMicOn := True, streaming := True,
                      trace := [RequestPermission, LiveAudioStream_start, SetIsMicOn True]\<rparr>"
  using mic_flag_tracks_stream [of "[PressMic None, Settle 0 (Permission (Inr ''granted''))]"
           "run [PressMic None, Settle 0 (Permission (Inr ''granted''))] init_state" None
           "Inr ''granted''" 0]
        mic_flag_tracks_stream [of "[]" init_state None "Inr ''granted''" 0]
        mic_flag_tracks_stream [of "[]" "step (PressMic None) init_state" None "Inr ''granted''" 0]
  by (simp add: eval_defs statusText_def stream_after_def started_not_stopped_def)

text \<open>
  C9 as stated fails once the component is unmounted: after switching on and
  unmounting, the flag and the status text are on and the stream is stopped; and a
  permission request that settles after the unmounting starts the stream while the flag
  is off.
\<close>

theorem flag_after_unmount_counterexample:
  "isMicOn (run [PressMic (Some ''granted''), Unmount] init_state)
   \<and> statusText (run [PressMic (Some ''granted''), Unmount] init_state) = ''BROADCASTING''
   \<and> \<not> streaming (run [PressMic (Some ''granted''), Unmount] init_state)
   \<and> \<not> started_not_stopped (trace (run [PressMic (Some ''granted''), Unmount] init_state))
   \<and> trace (run [PressMic (Some ''granted''), Unmount] init_state)
       = [LiveAudioStream_start, SetIsMicOn True, LiveAudioStream_stop]
   \<and> \<not> isMicOn (run [PressMic None, Unmount, Settle 0 (Permission (Inr ''granted''))] init_state)
   \<and> statusText (run [PressMic None, Unmount, Settle 0 (Permission (Inr ''granted''))] init_state) = ''READY''
   \<and> streaming (run [PressMic None, Unmount, Settle 0 (Permission (Inr ''granted''))] init_state)
   \<and> started_not_stopped
        (trace (run [PressMic None, Unmount, Settle 0 (Permission (Inr ''granted''))] init_state))"
  by (simp add: eval_defs statusText_def stream_after_def started_not_stopped_def)

subsection \<open>A cancelled pick\<close>

text \<open>
  Claim C10: when the picker resolves to a result with \<open>canceled\<close> true and a
  \<open>type\<close> other than \<open>'success'\<close>, \<open>addSound\<close> creates no sound and changes
  nothing: apart from the record of the picker call itself the state is the one before.
\<close>

theorem addSound_cancelled:
  assumes "canceled result = Some True" and "rtype result \<noteq> Some ''success''"
  shows "addSound (Inr result) created now s = s\<lparr>trace := trace s @ [GetDocumentAsync]\<rparr>"
  using assms by (simp add: addSound_def addSound_try_def called_def)

theorem addSound_cancelled_witness:
  "canceled demo_cancel = Some True \<and> rtype demo_cancel \<noteq> Some ''success''
   \<and> addSound (Inr demo_cancel) None 1700000000000 demo_playing
       = demo_playing\<lparr>trace := [GetDocumentAsync]\<rparr>
   \<and> sounds (addSound (Inr demo_cancel) None 1700000000000 demo_playing) = [demo_item]"
proof -
  have h1: "canceled demo_cancel = Some True" and h2: "rtype demo_cancel \<noteq> Some ''success''"
    by (simp_all add: demo_cancel_def)
  show ?thesis
    using h1 h2 addSound_cancelled [OF h1 h2, of None 1700000000000 demo_playing]
    by (simp add: demo_playing_def init_state_def)
qed

end
